theory Spec2Isabelle
  imports Complex_Main "HOL-Library.Log_Nat"
begin

section \<open>Python values used by the qubit-flip scripts\<close>

text \<open>
  Exceptions are values. \<open>ValueError\<close> is raised by the scripts themselves
  (\<^verbatim>\<open>raise ValueError("Environment variable HELMI_CORTEX_URL is not set")\<close>),
  \<open>ZeroDivisionError\<close> by Python's \<^verbatim>\<open>/\<close> on a zero divisor and \<open>OverflowError\<close> by
  \<^verbatim>\<open>/\<close> when the quotient of two ints is too large for a float, \<open>CircuitError\<close> by the
  circuit library when an integer does not index a qubit of the circuit (it carries the
  offending index and the number of qubits), \<open>IndexError\<close> by indexing an empty list, and
  \<open>Raised cls msg\<close> stands for any exception of class \<open>cls\<close> that the execution service
  raises while a job is submitted or its result is fetched.
\<close>

datatype py_exception =
    ValueError string
  | ZeroDivisionError
  | OverflowError
  | CircuitError int nat
  | IndexError
  | Raised string string

fun exception_class :: "py_exception \<Rightarrow> string" where
  "exception_class (ValueError _) = ''ValueError''"
| "exception_class ZeroDivisionError = ''ZeroDivisionError''"
| "exception_class OverflowError = ''OverflowError''"
| "exception_class (CircuitError _ _) = ''CircuitError''"
| "exception_class IndexError = ''IndexError''"
| "exception_class (Raised cls _) = cls"

text \<open>The class of the exception a call ends with, \<open>None\<close> when it returns a value.\<close>

fun raised_class :: "py_exception + 'a \<Rightarrow> string option" where
  "raised_class (Inl e) = Some (exception_class e)"
| "raised_class (Inr _) = None"

text \<open>
  A dictionary is a partial map; \<^verbatim>\<open>d.get(k, default)\<close> never raises.
\<close>

definition dict_get :: "('k \<rightharpoonup> 'v) \<Rightarrow> 'k \<Rightarrow> 'v \<Rightarrow> 'v" where
  "dict_get d k dflt = (case d k of None \<Rightarrow> dflt | Some v \<Rightarrow> v)"

text \<open>
  A Python float is an IEEE 754 binary64 number: 0, or plus or minus \<open>m * 2 ^ (e - 52)\<close>
  with \<open>m < 2 ^ 53\<close> and \<open>- 1022 \<le> e \<le> 1023\<close>. The model represents a float by the
  rational number it is equal to (so \<open>0.0\<close> and \<open>-0.0\<close> are the same value).

  \<open>round_half_even\<close> rounds a rational to the nearest integer, a tie going to the even
  one. \<open>binade x\<close> is, for positive \<open>x\<close>, the exponent \<open>e\<close> with \<open>2 ^ e \<le> x < 2 ^ (e + 1)\<close>,
  found from the bit lengths of numerator and denominator. \<open>round_binary64 x\<close> is the
  multiple of the spacing of the floats around \<open>x\<close> that is nearest to \<open>x\<close>, ties to even;
  below \<open>2 ^ - 1022\<close> the spacing stays \<open>2 ^ - 1074\<close>.
\<close>

definition round_half_even :: "rat \<Rightarrow> int" where
  "round_half_even x =
     (let n = \<lfloor>x\<rfloor>; r = x - of_int n
      in if r < 1 / 2 then n else if 1 / 2 < r then n + 1 else if even n then n else n + 1)"

definition binade :: "rat \<Rightarrow> int" where
  "binade x =
     (let (p, q) = quotient_of x; d = bitlen p - bitlen q
      in if 2 powi d \<le> x then d else d - 1)"

definition round_binary64 :: "rat \<Rightarrow> rat" where
  "round_binary64 x =
     (if x = 0 then 0
      else let e = max (binade \<bar>x\<bar>) (- 1022); ulp = 2 powi (e - 52)
           in sgn x * (of_int (round_half_even (\<bar>x\<bar> / ulp)) * ulp))"

text \<open>
  True division \<^verbatim>\<open>a / b\<close> of two Python ints. Python raises \<open>ZeroDivisionError\<close> for
  \<open>b = 0\<close>; otherwise it rounds the exact quotient to the nearest float, and raises
  \<open>OverflowError\<close> when the rounded quotient is no float, that is, when it reaches
  \<open>2 ^ 1024\<close> in magnitude.
\<close>

definition true_div :: "int \<Rightarrow> int \<Rightarrow> py_exception + rat" where
  "true_div a b =
     (if b = 0 then Inl ZeroDivisionError
      else let y = round_binary64 (of_int a / of_int b)
           in if 2 ^ 1024 \<le> \<bar>y\<bar> then Inl OverflowError else Inr y)"

section \<open>Scoring: \<open>calculate_success_probability\<close>\<close>

text \<open>
  \<^verbatim>\<open>success_counts = counts.get(desired_state, 0); return success_counts / shots\<close>
  (the same text in \<^verbatim>\<open>qb_flip.py\<close> and \<^verbatim>\<open>qb_flip_simple.py\<close>).
\<close>

type_synonym counts = "string \<rightharpoonup> int"

definition calculate_success_probability :: "counts \<Rightarrow> int \<Rightarrow> string \<Rightarrow> py_exception + rat" where
  "calculate_success_probability counts shots desired_state =
     (let success_counts = dict_get counts desired_state 0
      in true_div success_counts shots)"

section \<open>Circuits\<close>

text \<open>
  The part of the circuit library the scripts use. A register is a name and a size; a
  circuit has quantum registers, classical registers and a list of instructions on
  qubit positions (and classical bit positions), numbered from 0 across the registers.
\<close>

datatype instruction = XGate nat | Barrier "nat list" | Measure nat nat

type_synonym register = "string \<times> nat"

record circuit =
  qregs :: "register list"
  cregs :: "register list"
  data :: "instruction list"

definition num_qubits :: "circuit \<Rightarrow> nat" where
  "num_qubits qc = sum_list (map snd (qregs qc))"

definition num_clbits :: "circuit \<Rightarrow> nat" where
  "num_clbits qc = sum_list (map snd (cregs qc))"

definition QuantumCircuit :: "register list \<Rightarrow> register list \<Rightarrow> circuit" where
  "QuantumCircuit qs cs = \<lparr>qregs = qs, cregs = cs, data = []\<rparr>"

text \<open>
  An integer argument of a gate indexes the list of the circuit's qubits as a Python list
  is indexed: a negative integer counts from the end, and an integer outside the list
  raises \<open>CircuitError\<close>.
\<close>

definition qubit_index :: "circuit \<Rightarrow> int \<Rightarrow> py_exception + nat" where
  "qubit_index qc i =
     (let n = int (num_qubits qc); j = (if i < 0 then n + i else i)
      in if 0 \<le> j \<and> j < n then Inr (nat j) else Inl (CircuitError i (num_qubits qc)))"

text \<open>\<^verbatim>\<open>qc.x(qubit)\<close>: append an X gate on the qubit the integer denotes.\<close>

definition qc_x :: "circuit \<Rightarrow> int \<Rightarrow> py_exception + circuit" where
  "qc_x qc qubit =
     (case qubit_index qc qubit of
        Inl e \<Rightarrow> Inl e
      | Inr j \<Rightarrow> Inr (qc\<lparr>data := data qc @ [XGate j]\<rparr>))"

text \<open>
  \<^verbatim>\<open>qc.measure_all()\<close>: add a new classical register \<open>meas\<close> with one bit per qubit,
  a barrier over all qubits, and a measurement of qubit \<open>i\<close> into bit \<open>i\<close> of the new
  register (which comes after the classical bits the circuit already had).
\<close>

definition measure_all :: "circuit \<Rightarrow> circuit" where
  "measure_all qc =
     (let n = num_qubits qc; c0 = num_clbits qc
      in qc\<lparr>cregs := cregs qc @ [(''meas'', n)],
             data := data qc @ [Barrier [0..<n]] @ map (\<lambda>i. Measure i (c0 + i)) [0..<n]\<rparr>)"

text \<open>
  The layout dictionary \<^verbatim>\<open>{qreg[i]: qubits[i] for i in range(len(qubits))}\<close>: its
  keys are the register positions, entered in the order of the comprehension.
\<close>

type_synonym mapping = "nat \<rightharpoonup> int"

definition layout_of :: "int list \<Rightarrow> mapping" where
  "layout_of qubits = fold (\<lambda>i m. m(i \<mapsto> qubits ! i)) [0..<length qubits] Map.empty"

section \<open>Circuit builders\<close>

text \<open>The loop \<^verbatim>\<open>for qubit in qubits: qc.x(qubit)\<close>; an exception ends it.\<close>

fun x_each :: "circuit \<Rightarrow> int list \<Rightarrow> py_exception + circuit" where
  "x_each qc [] = Inr qc"
| "x_each qc (qubit # rest) =
     (case qc_x qc qubit of Inl e \<Rightarrow> Inl e | Inr qc' \<Rightarrow> x_each qc' rest)"

text \<open>
  \<open>flip_circuit\<close> of \<^verbatim>\<open>qb_flip.py\<close>. The gate is applied to the listed integer
  itself, \<^verbatim>\<open>qc.x(qubit)\<close>, in a register of \<^verbatim>\<open>len(qubits)\<close> qubits. (For the empty
  list the register is empty and no gate is applied.)
\<close>

definition flip_circuit :: "int list \<Rightarrow> py_exception + circuit \<times> mapping" where
  "flip_circuit qubits =
     (let qreg = (''qb'', length qubits);
          qc = QuantumCircuit [qreg] []
      in case x_each qc qubits of
           Inl e \<Rightarrow> Inl e
         | Inr qc1 \<Rightarrow> Inr (measure_all qc1, layout_of qubits))"

text \<open>\<open>single_flip_circuit\<close> of \<^verbatim>\<open>qb_flip.py\<close>.\<close>

definition single_flip_circuit :: "int \<Rightarrow> py_exception + circuit \<times> mapping" where
  "single_flip_circuit qubit =
     (let qreg = (''qb'', 1);
          qc = QuantumCircuit [qreg] []
      in case qc_x qc 0 of
           Inl e \<Rightarrow> Inl e
         | Inr qc1 \<Rightarrow> Inr (measure_all qc1, [0 \<mapsto> qubit]))"

text \<open>
  The two builders of \<^verbatim>\<open>qb_flip_simple.py\<close>, which also declare a classical register
  \<open>c\<close> of the size of the quantum register.
\<close>

definition flip_circuit_simple :: "int list \<Rightarrow> py_exception + circuit \<times> mapping" where
  "flip_circuit_simple qubits =
     (let qreg = (''qb'', length qubits);
          creg = (''c'', length qubits);
          qc = QuantumCircuit [qreg] [creg]
      in case x_each qc qubits of
           Inl e \<Rightarrow> Inl e
         | Inr qc1 \<Rightarrow> Inr (measure_all qc1, layout_of qubits))"

definition single_flip_circuit_simple :: "int \<Rightarrow> py_exception + circuit \<times> mapping" where
  "single_flip_circuit_simple qubit =
     (let qreg = (''qb'', 1);
          creg = (''c'', 1);
          qc = QuantumCircuit [qreg] [creg]
      in case qc_x qc 0 of
           Inl e \<Rightarrow> Inl e
         | Inr qc1 \<Rightarrow> Inr (measure_all qc1, [0 \<mapsto> qubit]))"

section \<open>The workflow: \<open>flip_qubits\<close>\<close>

text \<open>
  The execution target is either the remote device, reached through the endpoint read from
  the environment, or the local simulator. \<^verbatim>\<open>"IQM" in str(backend)\<close> holds for the
  remote backend only.
\<close>

datatype backend = IQMBackend string | AerSimulator

fun is_iqm :: "backend \<Rightarrow> bool" where
  "is_iqm (IQMBackend _) = True"
| "is_iqm AerSimulator = False"

text \<open>
  Lines 91 to 100 of \<^verbatim>\<open>qb_flip.py\<close>. \<^verbatim>\<open>os.getenv\<close> reads the environment, a map from
  names to values; \<^verbatim>\<open>not HELMI_CORTEX_URL\<close> holds for an absent and for an empty value.
  Every backend name other than \<open>helmi\<close> takes the \<^verbatim>\<open>else\<close> branch. The two library
  calls \<^verbatim>\<open>IQMProvider(url)\<close> and \<^verbatim>\<open>provider.get_backend('aer_simulator')\<close> are taken to
  return the backend of the provider.
\<close>

definition select_backend :: "(string \<rightharpoonup> string) \<Rightarrow> string \<Rightarrow> py_exception + backend" where
  "select_backend environ backend =
     (if backend = ''helmi'' then
        (case environ ''HELMI_CORTEX_URL'' of
           None \<Rightarrow> Inl (ValueError ''Environment variable HELMI_CORTEX_URL is not set'')
         | Some url \<Rightarrow>
             if url = [] then Inl (ValueError ''Environment variable HELMI_CORTEX_URL is not set'')
             else Inr (IQMBackend url))
      else Inr AerSimulator)"

text \<open>
  What a finished job gives back: the counts, and (on the remote device) the names of the
  physical qubits of the request's qubit mapping.
\<close>

record job_result =
  get_counts :: counts
  qubit_mapping :: "string list"

text \<open>
  \<^verbatim>\<open>execute(circuit, backend, shots=shots, initial_layout=mapping)\<close> followed by
  \<^verbatim>\<open>job.result()\<close> is the execution service, a parameter of the model: given the number
  of jobs submitted before and the job, it raises or returns the job's result.
\<close>

type_synonym executor =
  "nat \<Rightarrow> circuit \<Rightarrow> backend \<Rightarrow> int \<Rightarrow> mapping \<Rightarrow> py_exception + job_result"

text \<open>
  What a run does that can be seen from outside, in order: the jobs it submits and the
  lines it prints. The last line printed for a job shows the success probability as a
  percentage; the event keeps the probability itself.
\<close>

datatype event =
    Execute circuit backend int mapping
  | Print_Circuit_Number nat
  | Print_Circuit circuit
  | Print_Text string
  | Print_Qubit_Mapping "string list"
  | Print_Counts counts
  | Print_Physical_Name string
  | Print_Success_Probability rat

text \<open>
  One pass of the loop of lines 112 to 135, for the \<open>i\<close>-th pair. No exception is caught
  in it: whatever the job, the scoring or the look-up of the physical name raises ends
  the pass with that exception.
\<close>

definition flip_iteration ::
  "executor \<Rightarrow> int list option \<Rightarrow> backend \<Rightarrow> int \<Rightarrow> bool \<Rightarrow> nat \<Rightarrow> circuit \<times> mapping
     \<Rightarrow> event list \<times> (py_exception + unit)" where
  "flip_iteration execute qubits backend shots verbose i cm =
     (let circuit = fst cm; mapping = snd cm;
          ev1 = (if verbose then [Print_Circuit_Number (i + 1), Print_Circuit circuit] else [])
                @ [Execute circuit backend shots mapping]
      in case execute i circuit backend shots mapping of
           Inl e \<Rightarrow> (ev1, Inl e)
         | Inr result \<Rightarrow>
            (let ev2 = ev1 @ (if verbose \<and> is_iqm backend
                              then [Print_Text ''Mapping'', Print_Qubit_Mapping (qubit_mapping result)]
                              else [])
             in case (if qubits = None
                      then calculate_success_probability (get_counts result) shots ''11111''
                      else calculate_success_probability (get_counts result) shots ''1'') of
                  Inl e \<Rightarrow> (ev2, Inl e)
                | Inr success_probability \<Rightarrow>
                   (let ev3 = ev2 @ (if verbose then [Print_Counts (get_counts result)] else [])
                    in if is_iqm backend then
                         (case qubit_mapping result of
                            [] \<Rightarrow> (ev3, Inl IndexError)
                          | physical_name # _ \<Rightarrow>
                              (ev3 @ [Print_Physical_Name physical_name,
                                      Print_Success_Probability success_probability], Inr ()))
                       else (ev3 @ [Print_Success_Probability success_probability], Inr ()))))"

text \<open>The loop over the pairs, \<open>i\<close> counting them.\<close>

fun run_circuits ::
  "executor \<Rightarrow> int list option \<Rightarrow> backend \<Rightarrow> int \<Rightarrow> bool \<Rightarrow> nat \<Rightarrow> (circuit \<times> mapping) list
     \<Rightarrow> event list \<times> (py_exception + unit)" where
  "run_circuits execute qubits backend shots verbose i [] = ([], Inr ())"
| "run_circuits execute qubits backend shots verbose i (cm # rest) =
     (case flip_iteration execute qubits backend shots verbose i cm of
        (evs, Inl e) \<Rightarrow> (evs, Inl e)
      | (evs, Inr _) \<Rightarrow>
          (case run_circuits execute qubits backend shots verbose (Suc i) rest of
             (evs', r) \<Rightarrow> (evs @ evs', r)))"

text \<open>Lines 102 to 109: one circuit over the five qubits, or one circuit per listed qubit.\<close>

fun single_flip_circuits :: "int list \<Rightarrow> py_exception + (circuit \<times> mapping) list" where
  "single_flip_circuits [] = Inr []"
| "single_flip_circuits (qb # rest) =
     (case single_flip_circuit qb of
        Inl e \<Rightarrow> Inl e
      | Inr cm \<Rightarrow>
          (case single_flip_circuits rest of Inl e \<Rightarrow> Inl e | Inr cms \<Rightarrow> Inr (cm # cms)))"

definition circuit_mapping_pairs :: "int list option \<Rightarrow> py_exception + (circuit \<times> mapping) list" where
  "circuit_mapping_pairs qubits =
     (case qubits of
        None \<Rightarrow> (case flip_circuit [0, 1, 2, 3, 4] of Inl e \<Rightarrow> Inl e | Inr cm \<Rightarrow> Inr [cm])
      | Some qs \<Rightarrow> single_flip_circuits qs)"

text \<open>
  \<open>flip_qubits\<close>, with the environment and the execution service as parameters. It returns
  the events of the run and how the run ended.
\<close>

definition flip_qubits ::
  "(string \<rightharpoonup> string) \<Rightarrow> executor \<Rightarrow> int list option \<Rightarrow> string \<Rightarrow> int \<Rightarrow> bool
     \<Rightarrow> event list \<times> (py_exception + unit)" where
  "flip_qubits environ execute qubits backend shots verbose =
     (case select_backend environ backend of
        Inl e \<Rightarrow> ([], Inl e)
      | Inr b \<Rightarrow>
          (case circuit_mapping_pairs qubits of
             Inl e \<Rightarrow> ([], Inl e)
           | Inr pairs \<Rightarrow> run_circuits execute qubits b shots verbose 0 pairs))"

text \<open>The jobs submitted in a run, and the success probabilities printed in it.\<close>

fun jobs_of :: "event list \<Rightarrow> (circuit \<times> backend \<times> int \<times> mapping) list" where
  "jobs_of [] = []"
| "jobs_of (Execute c b s m # evs) = (c, b, s, m) # jobs_of evs"
| "jobs_of (_ # evs) = jobs_of evs"

fun scores_of :: "event list \<Rightarrow> rat list" where
  "scores_of [] = []"
| "scores_of (Print_Success_Probability p # evs) = p # scores_of evs"
| "scores_of (_ # evs) = scores_of evs"

text \<open>
  Names for the two circuits the workflow builds (shown below to be what the builders
  return): the one-qubit flip circuit and the flip circuit over the five default qubits.
\<close>

abbreviation one_qubit_flip :: circuit where
  "one_qubit_flip \<equiv>
     \<lparr>qregs = [(''qb'', 1)], cregs = [(''meas'', 1)],
      data = [XGate 0, Barrier [0], Measure 0 0]\<rparr>"

abbreviation all_qubits_flip :: circuit where
  "all_qubits_flip \<equiv>
     \<lparr>qregs = [(''qb'', 5)], cregs = [(''meas'', 5)],
      data = [XGate 0, XGate 1, XGate 2, XGate 3, XGate 4, Barrier [0, 1, 2, 3, 4],
              Measure 0 0, Measure 1 1, Measure 2 2, Measure 3 3, Measure 4 4]\<rparr>"

text \<open>
  Two execution services for the examples. The first one accepts every job: a five-qubit
  circuit comes back with 950 of 1000 shots in \<open>11111\<close>, any other with 990 in \<open>1\<close>, each
  with physical qubit names. The second one rejects the second job submitted to it and
  accepts the others.
\<close>

definition accepting_service :: executor where
  "accepting_service i circuit backend shots mapping =
     (if num_qubits circuit = 5
      then Inr \<lparr>get_counts = [''11111'' \<mapsto> 950, ''00000'' \<mapsto> 50],
                qubit_mapping = [''QB1'', ''QB2'', ''QB3'', ''QB4'', ''QB5'']\<rparr>
      else Inr \<lparr>get_counts = [''1'' \<mapsto> 990, ''0'' \<mapsto> 10], qubit_mapping = [''QB1'']\<rparr>)"

definition rejecting_second_job :: executor where
  "rejecting_second_job i circuit backend shots mapping =
     (if i = 1 then Inl (Raised ''SubmissionError'' ''circuit rejected'')
      else Inr \<lparr>get_counts = [''1'' \<mapsto> 990, ''0'' \<mapsto> 10], qubit_mapping = []\<rparr>)"

section \<open>Properties of float rounding and true division\<close>

lemma round_half_even_le: "x < of_int k + 1 / 2 \<Longrightarrow> round_half_even x \<le> k"
  unfolding round_half_even_def Let_def by (auto; linarith)

lemma round_half_even_ge: "of_int k - 1 / 2 < x \<Longrightarrow> k \<le> round_half_even x"
  unfolding round_half_even_def Let_def by (auto; linarith)

lemma round_half_even_ge_even:
  assumes "of_int k - 1 / 2 \<le> x" and "even k"
  shows "k \<le> round_half_even x"
proof (cases "of_int k - 1 / 2 < x")
  case True
  then show ?thesis by (rule round_half_even_ge)
next
  case False
  with assms have x: "x = of_int (k - 1) + 1 / 2" by simp
  have fl: "\<lfloor>x\<rfloor> = k - 1" unfolding x by linarith
  from assms(2) have "odd (k - 1)" by simp
  with fl x show ?thesis
    unfolding round_half_even_def Let_def by simp
qed

lemma round_half_even_nonneg: "0 \<le> x \<Longrightarrow> 0 \<le> round_half_even x"
  using round_half_even_ge [of 0 x] by simp

lemma binade_bounds:
  assumes "0 < x"
  shows "2 powi binade x \<le> x" and "x < 2 powi (binade x + 1)"
proof -
  obtain p q where pq: "quotient_of x = (p, q)" by (cases "quotient_of x")
  then have q: "0 < q" and x: "x = of_int p / of_int q"
    by (simp_all add: quotient_of_denom_pos quotient_of_div)
  with assms have p: "0 < p" by (simp add: zero_less_divide_iff)
  define bp where "bp = bitlen p"
  define bq where "bq = bitlen q"
  have bp1: "1 \<le> bp" and bq1: "1 \<le> bq"
    using p q bitlen_eq_zero_iff [of p] bitlen_eq_zero_iff [of q] bitlen_nonneg [of p]
      bitlen_nonneg [of q] unfolding bp_def bq_def by linarith+
  from bitlen_bounds [OF p] have "(2::int) ^ nat (bp - 1) \<le> p" "p < 2 ^ nat bp"
    unfolding bp_def by simp_all
  then have "(of_int ((2::int) ^ nat (bp - 1)) :: rat) \<le> of_int p" "(of_int p :: rat) < of_int (2 ^ nat bp)"
    by (simp_all only: of_int_le_iff of_int_less_iff)
  then have P: "(2::rat) powi (bp - 1) \<le> of_int p" "(of_int p :: rat) < 2 powi bp"
    using bp1 by (simp_all add: power_int_def)
  from bitlen_bounds [OF q] have "(2::int) ^ nat (bq - 1) \<le> q" "q < 2 ^ nat bq"
    unfolding bq_def by simp_all
  then have "(of_int ((2::int) ^ nat (bq - 1)) :: rat) \<le> of_int q" "(of_int q :: rat) < of_int (2 ^ nat bq)"
    by (simp_all only: of_int_le_iff of_int_less_iff)
  then have Q: "(2::rat) powi (bq - 1) \<le> of_int q" "(of_int q :: rat) < 2 powi bq"
    using bq1 by (simp_all add: power_int_def)
  have qpos: "(0::rat) < of_int q" using q by simp
  have ppos: "(0::rat) < of_int p" using p by simp
  have up: "x < 2 powi (bp - bq + 1)"
  proof -
    have "x * of_int q = of_int p" using x qpos by simp
    also have "\<dots> < 2 powi bp" by (rule P(2))
    also have "\<dots> = (2::rat) powi (bp - bq + 1) * 2 powi (bq - 1)"
      by (simp add: power_int_add [symmetric])
    also have "\<dots> \<le> 2 powi (bp - bq + 1) * of_int q"
      using Q(1) by (intro mult_left_mono) simp_all
    finally show ?thesis using qpos by simp
  qed
  have lo: "2 powi (bp - bq - 1) < x"
  proof -
    have "(2::rat) powi (bp - bq - 1) * of_int q < 2 powi (bp - bq - 1) * 2 powi bq"
      using Q(2) by (intro mult_strict_left_mono) simp_all
    also have "\<dots> = 2 powi (bp - 1)"
      by (simp add: power_int_add [symmetric])
    also have "\<dots> \<le> of_int p" by (rule P(1))
    also have "\<dots> = x * of_int q" using x qpos by simp
    finally show ?thesis using qpos by simp
  qed
  have b: "binade x = (if 2 powi (bp - bq) \<le> x then bp - bq else bp - bq - 1)"
    by (simp add: binade_def pq bp_def bq_def)
  show "2 powi binade x \<le> x" using lo unfolding b by auto
  show "x < 2 powi (binade x + 1)" using up unfolding b by auto
qed

lemma powi2_less_iff: "(2::rat) powi a < 2 powi b \<longleftrightarrow> a < b"
proof
  assume l: "(2::rat) powi a < 2 powi b"
  show "a < b"
  proof (rule ccontr)
    assume "\<not> a < b"
    then have "(2::rat) powi b \<le> 2 powi a" by (intro power_int_increasing) simp_all
    with l show False by simp
  qed
next
  assume "a < b"
  then show "(2::rat) powi a < 2 powi b" by (intro power_int_strict_increasing) simp_all
qed

lemma powi2_le_iff: "(2::rat) powi a \<le> 2 powi b \<longleftrightarrow> a \<le> b"
  using powi2_less_iff [of b a] by (simp add: not_less [symmetric])

lemma binade_unique:
  assumes "2 powi e \<le> x" and "x < 2 powi (e + 1)"
  shows "binade x = e"
proof -
  have "0 < (2::rat) powi e" by simp
  with assms(1) have pos: "0 < x" by linarith
  from binade_bounds [OF pos] assms
  have "(2::rat) powi binade x < 2 powi (e + 1)" "(2::rat) powi e < 2 powi (binade x + 1)"
    by linarith+
  then show ?thesis by (simp add: powi2_less_iff)
qed


lemma round_binary64_pos:
  assumes "0 < x"
  shows "round_binary64 x =
           of_int (round_half_even (x / 2 powi (max (binade x) (- 1022) - 52)))
             * 2 powi (max (binade x) (- 1022) - 52)"
  using assms by (simp add: round_binary64_def Let_def)

lemma round_binary64_nonneg: "0 \<le> x \<Longrightarrow> 0 \<le> round_binary64 x"
proof (cases "x = 0")
  case True
  then show ?thesis by (simp add: round_binary64_def)
next
  case False
  assume "0 \<le> x"
  with False have pos: "0 < x" by simp
  have "0 \<le> x / 2 powi (max (binade x) (- 1022) - 52)" using pos by simp
  from round_half_even_nonneg [OF this] show ?thesis
    unfolding round_binary64_pos [OF pos] by simp
qed

lemma round_binary64_minus: "round_binary64 (- x) = - round_binary64 x"
  by (simp add: round_binary64_def Let_def)

lemma round_binary64_abs: "\<bar>round_binary64 x\<bar> = round_binary64 \<bar>x\<bar>"
proof (cases "0 \<le> x")
  case True
  with round_binary64_nonneg [of x] show ?thesis by simp
next
  case False
  then have "0 \<le> - x" by simp
  from round_binary64_nonneg [OF this] False show ?thesis
    by (simp add: round_binary64_minus)
qed

lemma powi2_split: "(2::rat) powi (a + b) = 2 powi a * 2 powi b"
  by (simp add: power_int_add)

lemma round_binary64_finite:
  assumes "0 < x" and "x < 2 powi 1024 - 2 powi 970"
  shows "round_binary64 x < 2 powi 1024"
proof -
  define e where "e = max (binade x) (- 1022)"
  define u :: rat where "u = 2 powi (e - 52)"
  define m where "m = round_half_even (x / u)"
  have y: "round_binary64 x = of_int m * u"
    unfolding m_def u_def e_def by (rule round_binary64_pos [OF assms(1)])
  have u: "0 < u" by (simp add: u_def)
  have "(0::rat) < 2 powi 970" by simp
  with assms(2) have x1024: "x < 2 powi 1024" by linarith
  from binade_bounds [OF assms(1)] x1024 have "(2::rat) powi binade x < 2 powi 1024" by linarith
  then have "binade x < 1024" by (simp only: powi2_less_iff)
  then have e1023: "e \<le> 1023" by (simp add: e_def)
  have "binade x + 1 \<le> e + 1" by (simp add: e_def)
  then have "(2::rat) powi (binade x + 1) \<le> 2 powi (e + 1)" by (simp only: powi2_le_iff)
  with binade_bounds(2) [OF assms(1)] have xe: "x < 2 powi (e + 1)" by linarith
  have e1: "(2::rat) powi (e + 1) = 2 powi 53 * u"
  proof -
    have "(2::rat) powi (e + 1) = 2 powi (53 + (e - 52))"
      by (rule arg_cong [where f = "\<lambda>n. 2 powi n"]) simp
    then show ?thesis unfolding u_def powi2_split .
  qed
  have k: "(2::rat) powi 53 = of_int 9007199254740992" by simp
  show ?thesis
  proof (cases "e = 1023")
    case False
    with e1023 have "e + 1 \<le> 1023" by simp
    then have le: "(2::rat) powi (e + 1) \<le> 2 powi 1023" by (simp only: powi2_le_iff)
    from xe e1 u have "x / u < 2 powi 53" by (simp add: pos_divide_less_eq)
    then have "x / u < of_int 9007199254740992 + 1 / 2" unfolding k by linarith
    then have "m \<le> 9007199254740992" unfolding m_def by (rule round_half_even_le)
    then have "(of_int m :: rat) \<le> of_int 9007199254740992" by (simp only: of_int_le_iff)
    then have "of_int m * u \<le> 2 powi 53 * u" unfolding k using u
      by (intro mult_right_mono) simp_all
    also have "\<dots> \<le> 2 powi 1023" using le e1 by simp
    also have "\<dots> < (2::rat) powi 1024" by (simp only: powi2_less_iff)
    finally show ?thesis unfolding y .
  next
    case True
    then have u971: "u = 2 powi 971" by (simp add: u_def)
    have a: "(2::rat) powi 1024 = 2 powi 53 * u"
      unfolding u971 powi2_split [symmetric] by simp
    have b: "(2::rat) powi 970 = (1 / 2) * u"
    proof -
      have "(2::rat) powi 970 = 2 powi (- 1) * 2 powi 971"
        unfolding powi2_split [symmetric] by simp
      then show ?thesis by (simp add: u971)
    qed
    from assms(2) have "x < (2 powi 53 - 1 / 2) * u" unfolding a b by (simp add: algebra_simps)
    with u have "x / u < 2 powi 53 - 1 / 2" by (simp add: pos_divide_less_eq)
    then have "x / u < of_int 9007199254740991 + 1 / 2" unfolding k by simp
    then have "m \<le> 9007199254740991" unfolding m_def by (rule round_half_even_le)
    then have "(of_int m :: rat) \<le> of_int 9007199254740991" by (simp only: of_int_le_iff)
    then have "of_int m * u \<le> of_int 9007199254740991 * u" using u
      by (intro mult_right_mono) simp_all
    also have "\<dots> < 2 powi 53 * u" unfolding k using u
      by (intro mult_strict_right_mono) simp_all
    finally show ?thesis unfolding y a .
  qed
qed

lemma round_binary64_overflow:
  assumes "2 powi 1024 - 2 powi 970 \<le> x"
  shows "2 powi 1024 \<le> round_binary64 x"
proof -
  have half: "(2::rat) powi 970 = (1 / 2) * 2 powi 971"
  proof -
    have "(2::rat) powi 970 = 2 powi (- 1) * 2 powi 971"
      unfolding powi2_split [symmetric] by simp
    then show ?thesis by simp
  qed
  have big: "(2::rat) powi 1024 = 2 powi 53 * 2 powi 971"
    unfolding powi2_split [symmetric] by simp
  have k: "(2::rat) powi 53 = of_int 9007199254740992" by simp
  have k52: "(2::rat) powi 52 = of_int 4503599627370496" by simp
  have p971: "(0::rat) < 2 powi 971" by simp
  have T: "(2::rat) powi 1024 - 2 powi 970 = (2 powi 53 - 1 / 2) * 2 powi 971"
    unfolding big half by (simp add: algebra_simps)
  have "(2::rat) powi 1023 \<le> 2 powi 1024 - 2 powi 970"
  proof -
    have "(2::rat) powi 1023 = 2 powi 52 * 2 powi 971"
      unfolding powi2_split [symmetric] by simp
    also have "\<dots> \<le> (2 powi 53 - 1 / 2) * 2 powi 971"
      unfolding k k52 by (intro mult_right_mono) simp_all
    finally show ?thesis unfolding T .
  qed
  with assms have x1023: "2 powi 1023 \<le> x" by linarith
  have "(0::rat) < 2 powi 1023" by simp
  with x1023 have pos: "0 < x" by linarith
  define e where "e = binade x"
  from binade_bounds [OF pos] x1023 have "(2::rat) powi 1023 < 2 powi (e + 1)"
    unfolding e_def by linarith
  then have "1023 < e + 1" by (simp only: powi2_less_iff)
  then have e1023: "1023 \<le> e" by simp
  then have emax: "max (binade x) (- 1022) = e" by (simp add: e_def)
  define u :: rat where "u = 2 powi (e - 52)"
  define m where "m = round_half_even (x / u)"
  have y: "round_binary64 x = of_int m * u"
    unfolding m_def u_def emax [symmetric] by (rule round_binary64_pos [OF pos])
  have u: "0 < u" by (simp add: u_def)
  show ?thesis
  proof (cases "e = 1023")
    case True
    then have u971: "u = 2 powi 971" by (simp add: u_def)
    from assms have "(2 powi 53 - 1 / 2) * u \<le> x" unfolding T u971 .
    with u have "2 powi 53 - 1 / 2 \<le> x / u" by (simp add: pos_le_divide_eq)
    then have "of_int 9007199254740992 - 1 / 2 \<le> x / u" unfolding k .
    then have "9007199254740992 \<le> m" unfolding m_def
      by (rule round_half_even_ge_even) simp
    then have "(of_int 9007199254740992 :: rat) \<le> of_int m" by (simp only: of_int_le_iff)
    then have "2 powi 53 * u \<le> of_int m * u" unfolding k using u
      by (intro mult_right_mono) simp_all
    then show ?thesis unfolding y big u971 .
  next
    case False
    with e1023 have e1024: "1024 \<le> e" by simp
    have eu: "(2::rat) powi e = 2 powi 52 * u"
    proof -
      have "(2::rat) powi e = 2 powi (52 + (e - 52))"
        by (rule arg_cong [where f = "\<lambda>n. 2 powi n"]) simp
      then show ?thesis unfolding u_def powi2_split .
    qed
    from binade_bounds(1) [OF pos] have "2 powi 52 * u \<le> x" unfolding e_def [symmetric] eu .
    with u have "2 powi 52 \<le> x / u" by (simp add: pos_le_divide_eq)
    then have "of_int 4503599627370496 - 1 / 2 < x / u" unfolding k52 by linarith
    then have "4503599627370496 \<le> m" unfolding m_def by (rule round_half_even_ge)
    then have "(of_int 4503599627370496 :: rat) \<le> of_int m" by (simp only: of_int_le_iff)
    then have "2 powi 52 * u \<le> of_int m * u" unfolding k52 using u
      by (intro mult_right_mono) simp_all
    moreover from e1024 have "(2::rat) powi 1024 \<le> 2 powi e" by (simp only: powi2_le_iff)
    ultimately show ?thesis unfolding y eu by linarith
  qed
qed

text \<open>Rounding never moves a number by more than half a unit.\<close>

lemma round_half_even_nearest: "\<bar>of_int (round_half_even x) - x\<bar> \<le> 1 / 2"
proof -
  have "of_int \<lfloor>x\<rfloor> \<le> x" and "x < of_int \<lfloor>x\<rfloor> + 1" by linarith+
  then show ?thesis
    unfolding round_half_even_def Let_def by (auto simp: abs_le_iff)
qed

text \<open>
  The rounded value lies within half a spacing of the exact one: no float is nearer.
\<close>

lemma round_binary64_nearest:
  assumes "x \<noteq> 0"
  shows "\<bar>round_binary64 x - x\<bar> \<le> 2 powi (max (binade \<bar>x\<bar>) (- 1022) - 52) / 2"
proof -
  define u :: rat where "u = 2 powi (max (binade \<bar>x\<bar>) (- 1022) - 52)"
  define m where "m = round_half_even (\<bar>x\<bar> / u)"
  have u: "0 < u" by (simp add: u_def)
  have y: "round_binary64 x = sgn x * (of_int m * u)"
    using assms by (simp add: round_binary64_def Let_def u_def m_def)
  have "\<bar>of_int m - \<bar>x\<bar> / u\<bar> \<le> 1 / 2"
    unfolding m_def by (rule round_half_even_nearest)
  then have "\<bar>of_int m - \<bar>x\<bar> / u\<bar> * u \<le> 1 / 2 * u"
    using u by (intro mult_right_mono) simp_all
  moreover have "\<bar>of_int m - \<bar>x\<bar> / u\<bar> * u = \<bar>of_int m * u - \<bar>x\<bar>\<bar>"
  proof -
    have "\<bar>of_int m - \<bar>x\<bar> / u\<bar> * u = \<bar>(of_int m - \<bar>x\<bar> / u) * u\<bar>"
      using u by (simp add: abs_mult)
    also have "(of_int m - \<bar>x\<bar> / u) * u = of_int m * u - \<bar>x\<bar>"
      using u by (simp add: algebra_simps)
    finally show ?thesis .
  qed
  moreover have "\<bar>round_binary64 x - x\<bar> = \<bar>of_int m * u - \<bar>x\<bar>\<bar>"
  proof (cases "0 < x")
    case True
    then show ?thesis unfolding y by simp
  next
    case False
    with assms have "x < 0" by simp
    then have "round_binary64 x - x = - (of_int m * u - \<bar>x\<bar>)" unfolding y by simp
    then show ?thesis by (simp only: abs_minus)
  qed
  ultimately show ?thesis unfolding u_def by simp
qed

text \<open>
  True division by a non-zero int overflows exactly when the exact quotient reaches
  \<open>2 ^ 1024 - 2 ^ 970\<close> in magnitude, the midpoint between the largest float and
  \<open>2 ^ 1024\<close>; below it the result is the rounded quotient.
\<close>

lemma true_div_nonzero:
  assumes "b \<noteq> 0"
  shows "true_div a b =
           (if 2 ^ 1024 - 2 ^ 970 \<le> \<bar>(of_int a / of_int b :: rat)\<bar> then Inl OverflowError
            else Inr (round_binary64 (of_int a / of_int b)))"
proof -
  define x :: rat where "x = of_int a / of_int b"
  have p1024: "(2::rat) powi 1024 = 2 ^ 1024" and p970: "(2::rat) powi 970 = 2 ^ 970"
    by simp_all
  have "(2 ^ 1024 \<le> \<bar>round_binary64 x\<bar>) = (2 ^ 1024 - 2 ^ 970 \<le> \<bar>x\<bar>)"
  proof (cases "2 ^ 1024 - 2 ^ 970 \<le> \<bar>x\<bar>")
    case True
    then have "2 powi 1024 - 2 powi 970 \<le> \<bar>x\<bar>" unfolding p1024 p970 .
    from round_binary64_overflow [OF this] True show ?thesis
      unfolding round_binary64_abs p1024 by simp
  next
    case False
    then have lt: "\<bar>x\<bar> < 2 powi 1024 - 2 powi 970" unfolding p1024 p970 by simp
    have "round_binary64 \<bar>x\<bar> < 2 powi 1024"
    proof (cases "x = 0")
      case True
      then show ?thesis by (simp add: round_binary64_def)
    next
      case False
      then have "0 < \<bar>x\<bar>" by simp
      from round_binary64_finite [OF this lt] show ?thesis .
    qed
    with False show ?thesis unfolding round_binary64_abs p1024 by simp
  qed
  with assms show ?thesis
    unfolding true_div_def Let_def x_def by simp
qed

lemma round_binary64_7_10: "round_binary64 (7 / 10) = 3152519739159347 / 4503599627370496"
  by code_simp

lemma round_binary64_19_20: "round_binary64 (19 / 20) = 4278419646001971 / 4503599627370496"
  by code_simp

lemma round_binary64_99_100: "round_binary64 (99 / 100) = 4458563631096791 / 4503599627370496"
  by code_simp

section \<open>Properties of the scoring function\<close>

lemma success_probability_nonzero_shots:
  assumes "shots \<noteq> 0"
  shows "calculate_success_probability counts shots desired_state =
           (if 2 ^ 1024 - 2 ^ 970
                 \<le> \<bar>(of_int (dict_get counts desired_state 0) / of_int shots :: rat)\<bar>
            then Inl OverflowError
            else Inr (round_binary64 (of_int (dict_get counts desired_state 0) / of_int shots)))"
  using true_div_nonzero [OF assms] by (simp add: calculate_success_probability_def)

lemma success_probability_950:
  "calculate_success_probability [''11111'' \<mapsto> 950, ''00000'' \<mapsto> 50] 1000 ''11111'' =
     Inr (4278419646001971 / 4503599627370496)"
  by (simp add: success_probability_nonzero_shots dict_get_def round_binary64_19_20)

lemma success_probability_990:
  "calculate_success_probability [''1'' \<mapsto> 990, ''0'' \<mapsto> 10] 1000 ''1'' =
     Inr (4458563631096791 / 4503599627370496)"
  by (simp add: success_probability_nonzero_shots dict_get_def round_binary64_99_100)

text \<open>
  C6, as the spec states it: for every counts dictionary and every positive number of
  shots the function returns the recorded count divided by the shots. With the count
  \<open>2 ^ 1024\<close> recorded for \<open>1\<close> and 1 shot the quotient is too large for a float and the call
  raises \<open>OverflowError\<close> instead of returning.
\<close>

theorem success_probability_overflows:
  "calculate_success_probability [''1'' \<mapsto> 2 ^ 1024] 1 ''1'' = Inl OverflowError"
  by (simp add: success_probability_nonzero_shots dict_get_def)

text \<open>
  C6, amended. For every counts dictionary, every positive number of shots and every
  desired bitstring, let \<open>c\<close> be the count recorded for the desired bitstring (0 when none
  is recorded). When \<open>c / shots\<close> is below \<open>2 ^ 1024 - 2 ^ 970\<close> in magnitude,
  \<open>calculate_success_probability\<close> returns the float nearest to \<open>c / shots\<close> (ties to
  even); otherwise it raises \<open>OverflowError\<close>. For the counts \<open>{"1": 700, "0": 300}\<close>, 1000
  shots and the desired bitstring \<open>1\<close> it returns the float nearest to 7/10, which is the
  float that \<open>0.70\<close> denotes.
\<close>

theorem success_probability_is_count_over_shots:
  assumes "0 < shots"
  shows "calculate_success_probability counts shots desired_state =
           (if 2 ^ 1024 - 2 ^ 970
                 \<le> \<bar>(of_int (case counts desired_state of None \<Rightarrow> 0 | Some n \<Rightarrow> n)
                      / of_int shots :: rat)\<bar>
            then Inl OverflowError
            else Inr (round_binary64
                        (of_int (case counts desired_state of None \<Rightarrow> 0 | Some n \<Rightarrow> n)
                           / of_int shots)))"
proof -
  from assms have "shots \<noteq> 0" by simp
  from success_probability_nonzero_shots [OF this, of counts desired_state]
  show ?thesis by (simp add: dict_get_def)
qed

text \<open>
  C6, amended, at the counts \<open>{"1": 700, "0": 300}\<close> and 1000 shots: the result is the float
  nearest to 7/10, which is 3152519739159347 / 2 ^ 52.
\<close>

theorem success_probability_is_count_over_shots_witness:
  "(0::int) < 1000 \<and>
   calculate_success_probability [''1'' \<mapsto> 700, ''0'' \<mapsto> 300] 1000 ''1'' =
     Inr (round_binary64 (7 / 10)) \<and>
   round_binary64 (7 / 10) = 3152519739159347 / 2 ^ 52"
  using success_probability_is_count_over_shots
          [of 1000 "[''1'' \<mapsto> 700, ''0'' \<mapsto> 300]" "''1''"]
  by (simp add: round_binary64_7_10)

text \<open>
  C9. When the desired bitstring is not a key of the counts dictionary and the number of
  shots is positive, \<open>calculate_success_probability\<close> returns exactly 0: the missing key
  raises nothing.
\<close>

theorem missing_desired_state_scores_zero:
  assumes "desired_state \<notin> dom counts" and "0 < shots"
  shows "calculate_success_probability counts shots desired_state = Inr 0"
proof -
  from assms(1) have "dict_get counts desired_state 0 = 0"
    by (auto simp add: dict_get_def dom_def)
  moreover from assms(2) have "shots \<noteq> 0" by simp
  ultimately show ?thesis
    by (simp add: success_probability_nonzero_shots round_binary64_def)
qed

theorem missing_desired_state_scores_zero_witness:
  "''1'' \<notin> dom [''0'' \<mapsto> (1000::int)] \<and> (0::int) < 1000 \<and>
   calculate_success_probability [''0'' \<mapsto> 1000] 1000 ''1'' = Inr 0"
  using missing_desired_state_scores_zero [of "''1''" "[''0'' \<mapsto> 1000]" 1000]
  by simp

text \<open>
  C5, as the spec states it: with 0 shots the call fails with \<open>InvalidInputError\<close>. At the
  counts \<open>{"1": 700, "0": 300}\<close> and 0 shots the exception raised is not of that class.
\<close>

theorem zero_shots_not_invalid_input_error:
  "raised_class (calculate_success_probability [''1'' \<mapsto> 700, ''0'' \<mapsto> 300] 0 ''1'')
     \<noteq> Some ''InvalidInputError''"
  by (simp add: calculate_success_probability_def true_div_def)

text \<open>
  C5, amended: with 0 shots \<open>calculate_success_probability\<close> fails, for every counts
  dictionary and every desired bitstring, and the exception is the \<open>ZeroDivisionError\<close> of
  the division; the function checks nothing before it divides.
\<close>

theorem zero_shots_raises_zero_division_error:
  "calculate_success_probability counts 0 desired_state = Inl ZeroDivisionError"
  by (simp add: calculate_success_probability_def true_div_def)

section \<open>Properties of the circuit builders\<close>

lemmas builder_defs = QuantumCircuit_def qc_x_def qubit_index_def num_qubits_def
  num_clbits_def measure_all_def

lemma single_flip_circuit_value:
  "single_flip_circuit q = Inr (one_qubit_flip, [0 \<mapsto> q])"
  by (simp add: single_flip_circuit_def builder_defs)

lemma single_flip_circuit_simple_value:
  "single_flip_circuit_simple q =
     Inr (\<lparr>qregs = [(''qb'', 1)], cregs = [(''c'', 1), (''meas'', 1)],
           data = [XGate 0, Barrier [0], Measure 0 1]\<rparr>, [0 \<mapsto> q])"
  by (simp add: single_flip_circuit_simple_def builder_defs)

lemma flip_circuit_default_value:
  "flip_circuit [0, 1, 2, 3, 4] =
     Inr (all_qubits_flip, [0 \<mapsto> 0, 1 \<mapsto> 1, 2 \<mapsto> 2, 3 \<mapsto> 3, 4 \<mapsto> 4])"
  by (simp add: flip_circuit_def builder_defs layout_of_def upt_rec eval_nat_numeral)

text \<open>The layout dictionary sends position \<open>i\<close> to the \<open>i\<close>-th element of the list.\<close>

lemma fold_upd_upt:
  "fold (\<lambda>i m. m(i \<mapsto> f i)) [a..<b] m0 = (\<lambda>i. if a \<le> i \<and> i < b then Some (f i) else m0 i)"
  by (induction b) (auto simp: fun_eq_iff)

lemma layout_of_apply:
  "layout_of qubits i = (if i < length qubits then Some (qubits ! i) else None)"
  by (simp add: layout_of_def fold_upd_upt)

lemma dom_layout_of: "dom (layout_of qubits) = {..<length qubits}"
  by (auto simp: layout_of_apply dom_def)

lemma inj_on_layout_of:
  "distinct qubits \<Longrightarrow> inj_on (layout_of qubits) (dom (layout_of qubits))"
  by (auto simp: inj_on_def layout_of_apply dom_def nth_eq_iff_index_eq split: if_splits)

text \<open>
  When \<open>flip_circuit\<close> returns: exactly when every listed integer indexes the register of
  \<open>length qubits\<close> qubits, that is, lies between \<open>- length qubits\<close> and \<open>length qubits - 1\<close>.
\<close>

lemma qc_x_returns_iff:
  "(\<exists>qc'. qc_x qc q = Inr qc') \<longleftrightarrow> - int (num_qubits qc) \<le> q \<and> q < int (num_qubits qc)"
  by (auto simp: qc_x_def qubit_index_def Let_def)

lemma qc_x_num_qubits: "qc_x qc q = Inr qc' \<Longrightarrow> num_qubits qc' = num_qubits qc"
  by (auto simp: qc_x_def num_qubits_def split: sum.splits)

lemma x_each_returns_iff:
  "(\<exists>qc'. x_each qc qs = Inr qc') \<longleftrightarrow>
     (\<forall>q\<in>set qs. - int (num_qubits qc) \<le> q \<and> q < int (num_qubits qc))"
proof (induction qs arbitrary: qc)
  case Nil
  then show ?case by simp
next
  case (Cons q qs)
  show ?case
  proof (cases "qc_x qc q")
    case (Inl e)
    with qc_x_returns_iff [of qc q] show ?thesis by auto
  next
    case (Inr qc1)
    with qc_x_returns_iff [of qc q] qc_x_num_qubits [OF Inr] Cons.IH [of qc1]
    show ?thesis by auto
  qed
qed

lemma flip_circuit_returns_iff:
  "(\<exists>r. flip_circuit qs = Inr r) \<longleftrightarrow>
     (\<forall>q\<in>set qs. - int (length qs) \<le> q \<and> q < int (length qs))"
  using x_each_returns_iff [of "QuantumCircuit [(''qb'', length qs)] []" qs]
  by (auto simp: flip_circuit_def num_qubits_def QuantumCircuit_def split: sum.splits)

lemma flip_circuit_layout: "flip_circuit qs = Inr (c, m) \<Longrightarrow> m = layout_of qs"
  by (auto simp: flip_circuit_def split: sum.splits)

text \<open>
  C10. For every integer \<open>q\<close>, negative or beyond any device's range,
  \<open>single_flip_circuit q\<close> returns (in \<^verbatim>\<open>qb_flip.py\<close> and in \<^verbatim>\<open>qb_flip_simple.py\<close>): the
  index is not checked, and the mapping returned sends register position 0 to \<open>q\<close> itself.
\<close>

theorem single_flip_circuit_accepts_every_index:
  "raised_class (single_flip_circuit q) = None \<and>
   map_sum id snd (single_flip_circuit q) = Inr [0 \<mapsto> q] \<and>
   raised_class (single_flip_circuit_simple q) = None \<and>
   map_sum id snd (single_flip_circuit_simple q) = Inr [0 \<mapsto> q]"
  by (simp add: single_flip_circuit_value single_flip_circuit_simple_value del: fun_upd_apply)

text \<open>
  C2 asks for a circuit with an X gate on each of the \<open>k\<close> register positions for every
  sequence of \<open>k\<close> distinct indices. The builders pass the listed index itself to the gate,
  not its position in the list: for the two distinct indices 0 and 2 the register has two
  qubits, the index 2 is outside it, and both builders raise instead of returning a
  circuit.
\<close>

theorem flip_circuit_raises_on_0_2:
  "flip_circuit [0, 2] = Inl (CircuitError 2 2) \<and>
   flip_circuit_simple [0, 2] = Inl (CircuitError 2 2)"
  by (simp add: flip_circuit_def flip_circuit_simple_def builder_defs)

text \<open>
  C3 asks that \<open>single_flip_circuit q\<close> and \<open>flip_circuit [q]\<close> build the same circuit and
  mapping. For \<open>q = 3\<close> the first returns the one-qubit flip circuit with position 0
  mapped to 3, and the second raises, because it applies the gate to index 3 of a
  one-qubit register.
\<close>

theorem single_flip_circuit_3_differs_from_flip_circuit:
  "single_flip_circuit 3 = Inr (one_qubit_flip, [0 \<mapsto> 3]) \<and>
   flip_circuit [3] = Inl (CircuitError 3 1)"
  by (simp add: single_flip_circuit_def flip_circuit_def builder_defs)

text \<open>
  C4 asks that building the circuit for the qubits 2 and 4 gives the mapping
  \<open>{0: 2, 1: 4}\<close>. \<open>flip_circuit [2, 4]\<close> raises at its first gate, before the mapping is
  built, so no mapping is returned.
\<close>

theorem flip_circuit_2_4_returns_no_mapping:
  "map_sum id snd (flip_circuit [2, 4]) = Inl (CircuitError 2 2) \<and>
   map_sum id snd (flip_circuit [2, 4]) \<noteq> Inr [0 \<mapsto> 2, 1 \<mapsto> 4]"
  by (simp add: flip_circuit_def builder_defs)

section \<open>Properties of the workflow\<close>

lemma single_flip_circuits_value:
  "single_flip_circuits qs = Inr (map (\<lambda>q. (one_qubit_flip, [0 \<mapsto> q])) qs)"
  by (induction qs) (simp_all add: single_flip_circuit_value del: fun_upd_apply)

lemma jobs_of_append: "jobs_of (xs @ ys) = jobs_of xs @ jobs_of ys"
  by (induction xs rule: jobs_of.induct) simp_all

lemma scores_of_append: "scores_of (xs @ ys) = scores_of xs @ scores_of ys"
  by (induction xs rule: scores_of.induct) simp_all

text \<open>One pass of the loop submits exactly its own job, whatever happens next.\<close>

lemma iteration_jobs:
  "jobs_of (fst (flip_iteration execute qubits b shots verbose i (c, m))) = [(c, b, shots, m)]"
  by (simp add: flip_iteration_def Let_def jobs_of_append split: sum.splits list.splits)

text \<open>A job that raises ends the pass with its exception, and nothing is scored.\<close>

lemma iteration_raises:
  assumes "execute i c b shots m = Inl e"
  shows "snd (flip_iteration execute qubits b shots verbose i (c, m)) = Inl e"
    and "scores_of (fst (flip_iteration execute qubits b shots verbose i (c, m))) = []"
  using assms by (simp_all add: flip_iteration_def Let_def scores_of_append)

text \<open>
  A job that returns, whose counts can be scored and (on the remote device) whose physical
  qubit can be named, completes the pass, which prints exactly that score: against
  \<open>11111\<close> when no qubits were requested, against \<open>1\<close> otherwise.
\<close>

lemma iteration_returns:
  assumes "execute i c b shots m = Inr r"
    and "calculate_success_probability (get_counts r) shots
           (if qubits = None then ''11111'' else ''1'') = Inr p"
    and "is_iqm b \<longrightarrow> qubit_mapping r \<noteq> []"
  shows "snd (flip_iteration execute qubits b shots verbose i (c, m)) = Inr ()"
    and "scores_of (fst (flip_iteration execute qubits b shots verbose i (c, m))) = [p]"
  using assms
  by (auto simp add: flip_iteration_def Let_def scores_of_append split: list.splits if_splits)

text \<open>The loop over a list of pairs continues into a second list when the first completes.\<close>

lemma run_circuits_append:
  assumes "snd (run_circuits execute qubits b shots verbose i xs) = Inr ()"
  shows "run_circuits execute qubits b shots verbose i (xs @ ys) =
           (fst (run_circuits execute qubits b shots verbose i xs)
              @ fst (run_circuits execute qubits b shots verbose (i + length xs) ys),
            snd (run_circuits execute qubits b shots verbose (i + length xs) ys))"
  using assms
proof (induction xs arbitrary: i)
  case Nil
  then show ?case by simp
next
  case (Cons x xs)
  obtain ev1 r1 where it: "flip_iteration execute qubits b shots verbose i x = (ev1, r1)"
    by (cases "flip_iteration execute qubits b shots verbose i x")
  obtain ev2 r2 where lp: "run_circuits execute qubits b shots verbose (Suc i) xs = (ev2, r2)"
    by (cases "run_circuits execute qubits b shots verbose (Suc i) xs")
  from Cons.prems it lp have r1: "r1 = Inr ()" and r2: "r2 = Inr ()"
    by (auto split: sum.splits)
  from lp r2 have "snd (run_circuits execute qubits b shots verbose (Suc i) xs) = Inr ()"
    by simp
  from Cons.IH [OF this] lp it r1 show ?case
    by (simp split: prod.splits)
qed

text \<open>
  When every job of the list returns and can be scored, the loop completes, having
  submitted the jobs in order and printed their scores in order.
\<close>

lemma loop_completes:
  assumes "length ps = length cms"
    and "\<forall>j<length cms. \<exists>r.
           execute (i + j) (fst (cms ! j)) b shots (snd (cms ! j)) = Inr r \<and>
           calculate_success_probability (get_counts r) shots
             (if qubits = None then ''11111'' else ''1'') = Inr (ps ! j) \<and>
           (is_iqm b \<longrightarrow> qubit_mapping r \<noteq> [])"
  shows "snd (run_circuits execute qubits b shots verbose i cms) = Inr () \<and>
         scores_of (fst (run_circuits execute qubits b shots verbose i cms)) = ps \<and>
         jobs_of (fst (run_circuits execute qubits b shots verbose i cms)) =
           map (\<lambda>cm. (fst cm, b, shots, snd cm)) cms"
  using assms
proof (induction cms arbitrary: i ps)
  case Nil
  then show ?case by simp
next
  case (Cons cm rest)
  from Cons.prems(1) obtain p ps' where ps: "ps = p # ps'" and len: "length ps' = length rest"
    by (cases ps) simp_all
  from Cons.prems(2) [rule_format, of 0] ps obtain r where
    r: "execute i (fst cm) b shots (snd cm) = Inr r"
       "calculate_success_probability (get_counts r) shots
          (if qubits = None then ''11111'' else ''1'') = Inr p"
       "is_iqm b \<longrightarrow> qubit_mapping r \<noteq> []"
    by auto
  obtain ev1 r1 where it: "flip_iteration execute qubits b shots verbose i cm = (ev1, r1)"
    by (cases "flip_iteration execute qubits b shots verbose i cm")
  from r it have r1: "r1 = Inr ()" and s1: "scores_of ev1 = [p]"
    using iteration_returns [where execute = execute and i = i and c = "fst cm" and b = b
        and shots = shots and m = "snd cm" and r = r and qubits = qubits and verbose = verbose
        and p = p]
    by simp_all
  have j1: "jobs_of ev1 = [(fst cm, b, shots, snd cm)]"
    using iteration_jobs [of execute qubits b shots verbose i "fst cm" "snd cm"] it by simp
  have "\<forall>j<length rest. \<exists>r.
           execute (Suc i + j) (fst (rest ! j)) b shots (snd (rest ! j)) = Inr r \<and>
           calculate_success_probability (get_counts r) shots
             (if qubits = None then ''11111'' else ''1'') = Inr (ps' ! j) \<and>
           (is_iqm b \<longrightarrow> qubit_mapping r \<noteq> [])"
  proof (intro allI impI)
    fix j assume "j < length rest"
    then have "Suc j < length (cm # rest)" by simp
    from Cons.prems(2) [rule_format, OF this] ps show
      "\<exists>r. execute (Suc i + j) (fst (rest ! j)) b shots (snd (rest ! j)) = Inr r \<and>
           calculate_success_probability (get_counts r) shots
             (if qubits = None then ''11111'' else ''1'') = Inr (ps' ! j) \<and>
           (is_iqm b \<longrightarrow> qubit_mapping r \<noteq> [])"
      by simp
  qed
  from Cons.IH [OF len this] have ih:
    "snd (run_circuits execute qubits b shots verbose (Suc i) rest) = Inr ()"
    "scores_of (fst (run_circuits execute qubits b shots verbose (Suc i) rest)) = ps'"
    "jobs_of (fst (run_circuits execute qubits b shots verbose (Suc i) rest)) =
       map (\<lambda>cm. (fst cm, b, shots, snd cm)) rest"
    by simp_all
  obtain ev2 r2 where lp: "run_circuits execute qubits b shots verbose (Suc i) rest = (ev2, r2)"
    by (cases "run_circuits execute qubits b shots verbose (Suc i) rest")
  with ih it r1 s1 j1 ps show ?case
    by (simp add: jobs_of_append scores_of_append)
qed

text \<open>
  When the jobs of a first list return and can be scored and the next job raises, the loop
  ends with that exception: the scores of the first list are printed, the failing job is
  the last one submitted, and the pairs after it are not touched.
\<close>

lemma loop_aborts:
  assumes "length ps = length pre"
    and "\<forall>j<length pre. \<exists>r.
           execute (i + j) (fst (pre ! j)) b shots (snd (pre ! j)) = Inr r \<and>
           calculate_success_probability (get_counts r) shots
             (if qubits = None then ''11111'' else ''1'') = Inr (ps ! j) \<and>
           (is_iqm b \<longrightarrow> qubit_mapping r \<noteq> [])"
    and "execute (i + length pre) (fst cm) b shots (snd cm) = Inl e"
  shows "snd (run_circuits execute qubits b shots verbose i (pre @ cm # post)) = Inl e \<and>
         scores_of (fst (run_circuits execute qubits b shots verbose i (pre @ cm # post))) = ps \<and>
         jobs_of (fst (run_circuits execute qubits b shots verbose i (pre @ cm # post))) =
           map (\<lambda>cm. (fst cm, b, shots, snd cm)) (pre @ [cm])"
proof -
  from loop_completes [where ps = ps and cms = pre and execute = execute and i = i and b = b
      and shots = shots and qubits = qubits and verbose = verbose, OF assms(1,2)] have pre:
    "snd (run_circuits execute qubits b shots verbose i pre) = Inr ()"
    "scores_of (fst (run_circuits execute qubits b shots verbose i pre)) = ps"
    "jobs_of (fst (run_circuits execute qubits b shots verbose i pre)) =
       map (\<lambda>cm. (fst cm, b, shots, snd cm)) pre"
    by simp_all
  obtain ev1 r1 where
    it: "flip_iteration execute qubits b shots verbose (i + length pre) cm = (ev1, r1)"
    by (cases "flip_iteration execute qubits b shots verbose (i + length pre) cm")
  from assms(3) it have r1: "r1 = Inl e" and s1: "scores_of ev1 = []"
    using iteration_raises [where execute = execute and i = "i + length pre" and c = "fst cm"
        and b = b and shots = shots and m = "snd cm" and e = e and qubits = qubits
        and verbose = verbose]
    by simp_all
  have j1: "jobs_of ev1 = [(fst cm, b, shots, snd cm)]"
    using iteration_jobs [of execute qubits b shots verbose "i + length pre" "fst cm" "snd cm"] it
    by simp
  have "run_circuits execute qubits b shots verbose (i + length pre) (cm # post) = (ev1, Inl e)"
    using it r1 by simp
  with run_circuits_append [OF pre(1), of "cm # post"] pre(2,3) s1 j1 show ?thesis
    by (simp add: jobs_of_append scores_of_append)
qed

lemma flip_qubits_some:
  assumes "select_backend environ backend = Inr b"
  shows "flip_qubits environ execute (Some qs) backend shots verbose =
           run_circuits execute (Some qs) b shots verbose 0
             (map (\<lambda>q. (one_qubit_flip, [0 \<mapsto> q])) qs)"
  using assms
  by (simp add: flip_qubits_def circuit_mapping_pairs_def single_flip_circuits_value)

lemma flip_qubits_none:
  assumes "select_backend environ backend = Inr b"
  shows "flip_qubits environ execute None backend shots verbose =
           run_circuits execute None b shots verbose 0
             [(all_qubits_flip, [0 \<mapsto> 0, 1 \<mapsto> 1, 2 \<mapsto> 2, 3 \<mapsto> 3, 4 \<mapsto> 4])]"
  using assms
  by (simp add: flip_qubits_def circuit_mapping_pairs_def flip_circuit_default_value)

lemmas run_defs = flip_qubits_def select_backend_def circuit_mapping_pairs_def
  single_flip_circuit_value flip_circuit_default_value flip_iteration_def

text \<open>
  C7, as the spec states it: selecting the remote backend without an endpoint fails with a
  \<open>ConfigurationError\<close>. In an environment without \<open>HELMI_CORTEX_URL\<close> the selection of
  \<open>helmi\<close>, and the run that makes it, end with an exception that is not of that class.
\<close>

theorem helmi_without_endpoint_not_configuration_error:
  "raised_class (select_backend Map.empty ''helmi'') \<noteq> Some ''ConfigurationError'' \<and>
   raised_class (snd (flip_qubits Map.empty accepting_service None ''helmi'' 1000 False))
     \<noteq> Some ''ConfigurationError''"
  by (simp add: flip_qubits_def select_backend_def)

text \<open>
  C7, amended. Selecting the remote backend (\<open>helmi\<close>) when the environment has no
  \<open>HELMI_CORTEX_URL\<close> fails with a \<open>ValueError\<close> whose message names the missing variable;
  the run ends there with no event at all, so no job is submitted, whatever the execution
  service, the qubits, the shots and the verbosity. Selecting the simulator gives the
  simulator backend in every environment, and the whole run on the simulator is the same in
  every environment: the endpoint is never read.
\<close>

theorem helmi_without_endpoint_fails_before_any_job:
  assumes "environ ''HELMI_CORTEX_URL'' = None"
  shows "select_backend environ ''helmi'' =
           Inl (ValueError (''Environment variable '' @ ''HELMI_CORTEX_URL'' @ '' is not set'')) \<and>
         flip_qubits environ execute qubits ''helmi'' shots verbose =
           ([], Inl (ValueError (''Environment variable '' @ ''HELMI_CORTEX_URL'' @ '' is not set''))) \<and>
         select_backend environ' ''simulator'' = Inr AerSimulator \<and>
         flip_qubits environ' execute qubits ''simulator'' shots verbose =
           flip_qubits Map.empty execute qubits ''simulator'' shots verbose"
  using assms by (simp add: flip_qubits_def select_backend_def)

text \<open>
  C7, amended, at an empty environment, and the simulator selected in an environment that
  has the endpoint.
\<close>

theorem helmi_without_endpoint_fails_before_any_job_witness:
  "Map.empty ''HELMI_CORTEX_URL'' = (None :: string option) \<and>
   select_backend Map.empty ''helmi'' =
     Inl (ValueError ''Environment variable HELMI_CORTEX_URL is not set'') \<and>
   raised_class (select_backend Map.empty ''helmi'') = Some ''ValueError'' \<and>
   jobs_of (fst (flip_qubits Map.empty accepting_service (Some [0, 1, 2]) ''helmi'' 1000 False)) = [] \<and>
   snd (flip_qubits Map.empty accepting_service (Some [0, 1, 2]) ''helmi'' 1000 False) =
     Inl (ValueError ''Environment variable HELMI_CORTEX_URL is not set'') \<and>
   select_backend [''HELMI_CORTEX_URL'' \<mapsto> ''https://helmi.example''] ''simulator'' = Inr AerSimulator"
  using helmi_without_endpoint_fails_before_any_job
          [of Map.empty accepting_service "Some [0, 1, 2]" 1000 False
              "[''HELMI_CORTEX_URL'' \<mapsto> ''https://helmi.example'']"]
  by simp

text \<open>
  C8. When no qubits are requested (\<open>qubits\<close> is \<open>None\<close>), the run submits exactly one job,
  the flip circuit over the qubits 0 to 4 laid out on the physical qubits 0 to 4; when that
  job returns, the run completes and prints exactly one success probability, the score of
  the job's counts against \<open>11111\<close>. When the qubits \<open>qs\<close> are requested and every job
  returns, the run completes, it has submitted one one-qubit flip circuit per requested
  qubit, in order, each laid out on that qubit, and the success probabilities it prints
  are, in order, the scores of the jobs' counts against \<open>1\<close>. (A job returns, for this
  purpose, when the service gives a result whose score is a float and, on the remote
  device, names the physical qubit.) This holds on both backends, verbose or not.
\<close>

theorem workflow_desired_states:
  assumes "select_backend environ backend = Inr b"
  shows "jobs_of (fst (flip_qubits environ execute None backend shots verbose)) =
           [(all_qubits_flip, b, shots, [0 \<mapsto> 0, 1 \<mapsto> 1, 2 \<mapsto> 2, 3 \<mapsto> 3, 4 \<mapsto> 4])] \<and>
         (execute 0 all_qubits_flip b shots [0 \<mapsto> 0, 1 \<mapsto> 1, 2 \<mapsto> 2, 3 \<mapsto> 3, 4 \<mapsto> 4] = Inr r \<and>
          calculate_success_probability (get_counts r) shots ''11111'' = Inr p \<and>
          (is_iqm b \<longrightarrow> qubit_mapping r \<noteq> []) \<longrightarrow>
            snd (flip_qubits environ execute None backend shots verbose) = Inr () \<and>
            scores_of (fst (flip_qubits environ execute None backend shots verbose)) = [p]) \<and>
         (length ps = length qs \<and>
          (\<forall>j<length qs. \<exists>r'.
              execute j one_qubit_flip b shots [0 \<mapsto> qs ! j] = Inr r' \<and>
              calculate_success_probability (get_counts r') shots ''1'' = Inr (ps ! j) \<and>
              (is_iqm b \<longrightarrow> qubit_mapping r' \<noteq> [])) \<longrightarrow>
            snd (flip_qubits environ execute (Some qs) backend shots verbose) = Inr () \<and>
            jobs_of (fst (flip_qubits environ execute (Some qs) backend shots verbose)) =
              map (\<lambda>q. (one_qubit_flip, b, shots, [0 \<mapsto> q])) qs \<and>
            scores_of (fst (flip_qubits environ execute (Some qs) backend shots verbose)) = ps)"
proof (intro conjI impI)
  let ?m5 = "[0 \<mapsto> 0, 1 \<mapsto> 1, 2 \<mapsto> 2, 3 \<mapsto> 3, 4 \<mapsto> (4::int)]"
  let ?none = "flip_qubits environ execute None backend shots verbose"
  let ?some = "flip_qubits environ execute (Some qs) backend shots verbose"
  let ?cm = "\<lambda>q. (one_qubit_flip, [0 \<mapsto> q])"
  have none: "?none = flip_iteration execute None b shots verbose 0 (all_qubits_flip, ?m5)"
    using flip_qubits_none [OF assms, of execute shots verbose]
    by (simp split: prod.splits sum.splits)
  show "jobs_of (fst ?none) = [(all_qubits_flip, b, shots, ?m5)]"
    unfolding none by (rule iteration_jobs)
  {
    assume h: "execute 0 all_qubits_flip b shots ?m5 = Inr r \<and>
          calculate_success_probability (get_counts r) shots ''11111'' = Inr p \<and>
          (is_iqm b \<longrightarrow> qubit_mapping r \<noteq> [])"
    then show "snd ?none = Inr ()" and "scores_of (fst ?none) = [p]"
      unfolding none
      using iteration_returns [where execute = execute and i = 0 and c = all_qubits_flip
          and b = b and shots = shots and m = ?m5 and r = r and qubits = None
          and verbose = verbose and p = p]
      by simp_all
  }
  {
    assume h: "length ps = length qs \<and>
          (\<forall>j<length qs. \<exists>r'.
              execute j one_qubit_flip b shots [0 \<mapsto> qs ! j] = Inr r' \<and>
              calculate_success_probability (get_counts r') shots ''1'' = Inr (ps ! j) \<and>
              (is_iqm b \<longrightarrow> qubit_mapping r' \<noteq> []))"
    have some: "?some = run_circuits execute (Some qs) b shots verbose 0 (map ?cm qs)"
      by (rule flip_qubits_some [OF assms])
    have len: "length ps = length (map ?cm qs)" using h by simp
    have each: "\<forall>j<length (map ?cm qs). \<exists>r.
           execute (0 + j) (fst (map ?cm qs ! j)) b shots (snd (map ?cm qs ! j)) = Inr r \<and>
           calculate_success_probability (get_counts r) shots
             (if Some qs = None then ''11111'' else ''1'') = Inr (ps ! j) \<and>
           (is_iqm b \<longrightarrow> qubit_mapping r \<noteq> [])"
      using h by (simp del: fun_upd_apply)
    from loop_completes [where ps = ps and cms = "map ?cm qs" and execute = execute and i = 0
        and b = b and shots = shots and qubits = "Some qs" and verbose = verbose, OF len each]
    show "snd ?some = Inr ()"
      and "jobs_of (fst ?some) = map (\<lambda>q. (one_qubit_flip, b, shots, [0 \<mapsto> q])) qs"
      and "scores_of (fst ?some) = ps"
      unfolding some by (simp_all add: comp_def del: fun_upd_apply)
  }
qed

text \<open>
  C8 on the remote device, verbose, with a service that accepts every job: the all-qubits
  run scores 950/1000 on \<open>11111\<close> (the float nearest to 0.95), and the run over the qubits
  3 and 1 scores 990/1000 on \<open>1\<close> twice (the float nearest to 0.99).
\<close>

theorem workflow_desired_states_witness:
  "select_backend [''HELMI_CORTEX_URL'' \<mapsto> ''https://helmi.example''] ''helmi'' =
     Inr (IQMBackend ''https://helmi.example'') \<and>
   is_iqm (IQMBackend ''https://helmi.example'') \<and>
   snd (flip_qubits [''HELMI_CORTEX_URL'' \<mapsto> ''https://helmi.example''] accepting_service None
          ''helmi'' 1000 True) = Inr () \<and>
   jobs_of (fst (flip_qubits [''HELMI_CORTEX_URL'' \<mapsto> ''https://helmi.example''] accepting_service
                   None ''helmi'' 1000 True)) =
     [(all_qubits_flip, IQMBackend ''https://helmi.example'', 1000,
       [0 \<mapsto> 0, 1 \<mapsto> 1, 2 \<mapsto> 2, 3 \<mapsto> 3, 4 \<mapsto> 4])] \<and>
   scores_of (fst (flip_qubits [''HELMI_CORTEX_URL'' \<mapsto> ''https://helmi.example''] accepting_service
                     None ''helmi'' 1000 True)) =
     [4278419646001971 / 4503599627370496] \<and>
   snd (flip_qubits [''HELMI_CORTEX_URL'' \<mapsto> ''https://helmi.example''] accepting_service
          (Some [3, 1]) ''helmi'' 1000 True) = Inr () \<and>
   jobs_of (fst (flip_qubits [''HELMI_CORTEX_URL'' \<mapsto> ''https://helmi.example''] accepting_service
                   (Some [3, 1]) ''helmi'' 1000 True)) =
     [(one_qubit_flip, IQMBackend ''https://helmi.example'', 1000, [0 \<mapsto> 3]),
      (one_qubit_flip, IQMBackend ''https://helmi.example'', 1000, [0 \<mapsto> 1])] \<and>
   scores_of (fst (flip_qubits [''HELMI_CORTEX_URL'' \<mapsto> ''https://helmi.example''] accepting_service
                     (Some [3, 1]) ''helmi'' 1000 True)) =
     [4458563631096791 / 4503599627370496, 4458563631096791 / 4503599627370496]"
proof -
  let ?env = "[''HELMI_CORTEX_URL'' \<mapsto> ''https://helmi.example'']"
  let ?b = "IQMBackend ''https://helmi.example''"
  let ?m5 = "[0 \<mapsto> 0, 1 \<mapsto> 1, 2 \<mapsto> 2, 3 \<mapsto> 3, 4 \<mapsto> (4::int)]"
  let ?r5 = "\<lparr>get_counts = [''11111'' \<mapsto> 950, ''00000'' \<mapsto> 50],
              qubit_mapping = [''QB1'', ''QB2'', ''QB3'', ''QB4'', ''QB5'']\<rparr>"
  let ?r1 = "\<lparr>get_counts = [''1'' \<mapsto> 990, ''0'' \<mapsto> 10], qubit_mapping = [''QB1'']\<rparr>"
  let ?p5 = "4278419646001971 / 4503599627370496 :: rat"
  let ?p1 = "4458563631096791 / 4503599627370496 :: rat"
  have sel: "select_backend ?env ''helmi'' = Inr ?b"
    by (simp add: select_backend_def)
  have job5: "accepting_service 0 all_qubits_flip ?b 1000 ?m5 = Inr ?r5"
    by (simp add: accepting_service_def num_qubits_def)
  have score5: "calculate_success_probability (get_counts ?r5) 1000 ''11111'' = Inr ?p5"
    using success_probability_950 by simp
  have named5: "is_iqm ?b \<longrightarrow> qubit_mapping ?r5 \<noteq> []" by simp
  have job1: "accepting_service j one_qubit_flip ?b 1000 [0 \<mapsto> q] = Inr ?r1" for j q
    by (simp add: accepting_service_def num_qubits_def)
  have score1: "calculate_success_probability (get_counts ?r1) 1000 ''1'' = Inr ?p1"
    using success_probability_990 by simp
  have len: "length [?p1, ?p1] = length [3, 1::int]" by simp
  have each: "\<forall>j<length [3, 1::int]. \<exists>r'.
      accepting_service j one_qubit_flip ?b 1000 [0 \<mapsto> [3, 1] ! j] = Inr r' \<and>
      calculate_success_probability (get_counts r') 1000 ''1'' = Inr ([?p1, ?p1] ! j) \<and>
      (is_iqm ?b \<longrightarrow> qubit_mapping r' \<noteq> [])"
  proof (intro allI impI)
    fix j assume "j < length [3, 1::int]"
    then have "[?p1, ?p1] ! j = ?p1" by (cases j) simp_all
    with job1 [of j "[3, 1] ! j"] score1 show "\<exists>r'.
      accepting_service j one_qubit_flip ?b 1000 [0 \<mapsto> [3, 1] ! j] = Inr r' \<and>
      calculate_success_probability (get_counts r') 1000 ''1'' = Inr ([?p1, ?p1] ! j) \<and>
      (is_iqm ?b \<longrightarrow> qubit_mapping r' \<noteq> [])"
      by (intro exI [of _ ?r1]) simp
  qed
  from workflow_desired_states [where environ = ?env and backend = "''helmi''" and b = ?b
      and execute = accepting_service and shots = 1000 and verbose = True and r = ?r5
      and p = ?p5 and ps = "[?p1, ?p1]" and qs = "[3, 1]", OF sel]
    sel job5 score5 named5 len each
  show ?thesis by (simp del: fun_upd_apply)
qed

text \<open>
  C1, as the spec states it: over the qubits 0, 1, 2 with the job of qubit 1 failing, the
  report has three entries and the loop does not stop early. With a service that rejects
  the second job, the run over \<open>[0, 1, 2]\<close> prints one success probability, submits two
  jobs and ends with the exception of the rejected job: nothing is recorded for qubit 1 and
  nothing is run for qubit 2.
\<close>

theorem job_failure_is_not_isolated:
  "length (scores_of (fst (flip_qubits Map.empty rejecting_second_job (Some [0, 1, 2])
                             ''simulator'' 1000 False))) = 1 \<and>
   length (jobs_of (fst (flip_qubits Map.empty rejecting_second_job (Some [0, 1, 2])
                           ''simulator'' 1000 False))) = 2 \<and>
   snd (flip_qubits Map.empty rejecting_second_job (Some [0, 1, 2]) ''simulator'' 1000 False) =
     Inl (Raised ''SubmissionError'' ''circuit rejected'')"
  by (simp add: run_defs rejecting_second_job_def success_probability_990)

text \<open>
  C1, amended: \<open>flip_qubits\<close> catches nothing. When the jobs of the requested qubits \<open>pre\<close>
  return (each with a result whose score against \<open>1\<close> is the float \<open>ps ! j\<close> and, on the
  remote device, a physical name to print) and the job of the next qubit \<open>q\<close> raises \<open>e\<close>,
  the run ends with \<open>e\<close>: exactly the success probabilities \<open>ps\<close> of the qubits \<open>pre\<close> have
  been printed, jobs have been submitted for \<open>pre\<close> and \<open>q\<close> only, and no job is submitted
  for the qubits \<open>post\<close> after \<open>q\<close>.
\<close>

theorem job_failure_ends_the_run:
  assumes "select_backend environ backend = Inr b"
    and "length ps = length pre"
    and "\<forall>j<length pre. \<exists>r.
           execute j one_qubit_flip b shots [0 \<mapsto> pre ! j] = Inr r \<and>
           calculate_success_probability (get_counts r) shots ''1'' = Inr (ps ! j) \<and>
           (is_iqm b \<longrightarrow> qubit_mapping r \<noteq> [])"
    and "execute (length pre) one_qubit_flip b shots [0 \<mapsto> q] = Inl e"
  shows "snd (flip_qubits environ execute (Some (pre @ q # post)) backend shots verbose) = Inl e \<and>
         scores_of (fst (flip_qubits environ execute (Some (pre @ q # post)) backend shots
                           verbose)) = ps \<and>
         jobs_of (fst (flip_qubits environ execute (Some (pre @ q # post)) backend shots verbose)) =
           map (\<lambda>q'. (one_qubit_flip, b, shots, [0 \<mapsto> q'])) (pre @ [q])"
proof -
  let ?cm = "\<lambda>q'. (one_qubit_flip, [0 \<mapsto> q'])"
  let ?qs = "Some (pre @ q # post)"
  have eq: "flip_qubits environ execute ?qs backend shots verbose =
          run_circuits execute ?qs b shots verbose 0 (map ?cm pre @ ?cm q # map ?cm post)"
    using flip_qubits_some [OF assms(1), of execute "pre @ q # post" shots verbose] by simp
  have len: "length ps = length (map ?cm pre)" using assms(2) by simp
  have each: "\<forall>j<length (map ?cm pre). \<exists>r.
          execute (0 + j) (fst (map ?cm pre ! j)) b shots (snd (map ?cm pre ! j)) = Inr r \<and>
          calculate_success_probability (get_counts r) shots
            (if ?qs = None then ''11111'' else ''1'') = Inr (ps ! j) \<and>
          (is_iqm b \<longrightarrow> qubit_mapping r \<noteq> [])"
    using assms(3) by (simp del: fun_upd_apply)
  have failing: "execute (0 + length (map ?cm pre)) (fst (?cm q)) b shots (snd (?cm q)) = Inl e"
    using assms(4) by (simp del: fun_upd_apply)
  from loop_aborts [where ps = ps and pre = "map ?cm pre" and execute = execute and i = 0
      and b = b and shots = shots and qubits = ?qs and cm = "?cm q" and e = e
      and verbose = verbose and post = "map ?cm post", OF len each failing]
  show ?thesis
    unfolding eq by (simp add: comp_def del: fun_upd_apply)
qed

text \<open>
  C1, amended, at the qubits 0, 1, 2 with the second job rejected: the score of qubit 0,
  990/1000 as a float, is the only one printed.
\<close>

theorem job_failure_ends_the_run_witness:
  "select_backend Map.empty ''simulator'' = Inr AerSimulator \<and>
   rejecting_second_job 0 one_qubit_flip AerSimulator 1000 [0 \<mapsto> 0] =
     Inr \<lparr>get_counts = [''1'' \<mapsto> 990, ''0'' \<mapsto> 10], qubit_mapping = []\<rparr> \<and>
   calculate_success_probability [''1'' \<mapsto> 990, ''0'' \<mapsto> 10] 1000 ''1'' =
     Inr (4458563631096791 / 4503599627370496) \<and>
   \<not> is_iqm AerSimulator \<and>
   rejecting_second_job 1 one_qubit_flip AerSimulator 1000 [0 \<mapsto> 1] =
     Inl (Raised ''SubmissionError'' ''circuit rejected'') \<and>
   snd (flip_qubits Map.empty rejecting_second_job (Some [0, 1, 2]) ''simulator'' 1000 True) =
     Inl (Raised ''SubmissionError'' ''circuit rejected'') \<and>
   scores_of (fst (flip_qubits Map.empty rejecting_second_job (Some [0, 1, 2])
                     ''simulator'' 1000 True)) = [4458563631096791 / 4503599627370496] \<and>
   jobs_of (fst (flip_qubits Map.empty rejecting_second_job (Some [0, 1, 2]) ''simulator'' 1000 True)) =
     [(one_qubit_flip, AerSimulator, 1000, [0 \<mapsto> 0]), (one_qubit_flip, AerSimulator, 1000, [0 \<mapsto> 1])]"
proof -
  let ?r = "\<lparr>get_counts = [''1'' \<mapsto> 990, ''0'' \<mapsto> 10], qubit_mapping = []\<rparr>"
  let ?p = "4458563631096791 / 4503599627370496 :: rat"
  have sel: "select_backend Map.empty ''simulator'' = Inr AerSimulator"
    by (simp add: select_backend_def)
  have first: "rejecting_second_job 0 one_qubit_flip AerSimulator 1000 [0 \<mapsto> 0] = Inr ?r"
    by (simp add: rejecting_second_job_def)
  have score: "calculate_success_probability (get_counts ?r) 1000 ''1'' = Inr ?p"
    using success_probability_990 by simp
  have len: "length [?p] = length [0::int]" by simp
  have before: "\<forall>j<length [0::int]. \<exists>r.
      rejecting_second_job j one_qubit_flip AerSimulator 1000 [0 \<mapsto> [0] ! j] = Inr r \<and>
      calculate_success_probability (get_counts r) 1000 ''1'' = Inr ([?p] ! j) \<and>
      (is_iqm AerSimulator \<longrightarrow> qubit_mapping r \<noteq> [])"
    using first score by simp
  have rejected: "rejecting_second_job (length [0::int]) one_qubit_flip AerSimulator 1000 [0 \<mapsto> 1] =
     Inl (Raised ''SubmissionError'' ''circuit rejected'')"
    by (simp add: rejecting_second_job_def)
  from job_failure_ends_the_run [where environ = Map.empty and backend = "''simulator''"
      and b = AerSimulator and ps = "[?p]" and pre = "[0]" and execute = rejecting_second_job
      and shots = 1000 and q = 1 and e = "Raised ''SubmissionError'' ''circuit rejected''"
      and post = "[2]" and verbose = True, OF sel len before rejected]
    sel first rejected success_probability_990
  show ?thesis by (simp del: fun_upd_apply)
qed

end
